theory Spec2Isabelle
  imports Main "HOL-Library.Word" "HOL-Library.Sublist"
begin

section \<open>Loguru: a shallow embedding of \<^verbatim>\<open>loguru.hpp\<close>\<close>

text \<open>
  C strings (\<^verbatim>\<open>const char*\<close>, NUL-terminated) are modelled by their content, a
  \<^typ>\<open>string\<close> without the terminating NUL; a pointer into a C string is the
  suffix that starts there. \<^verbatim>\<open>int\<close> verbosities are only compared and
  never computed with, so they are \<^typ>\<open>int\<close>; counters that are incremented
  (\<^verbatim>\<open>std::atomic<int>\<close>, \<^verbatim>\<open>unsigned\<close>) are 32-bit words.
\<close>

subsection \<open>Helpers: \<^verbatim>\<open>filename\<close> and \<^verbatim>\<open>indentation\<close>\<close>

definition is_path_separator :: "char \<Rightarrow> bool" where
  "is_path_separator c = (c = CHR ''/'' \<or> c = CHR 0x5C)"

text \<open>
  \<^verbatim>\<open>for (auto ptr = path; *ptr; ++ptr) if (*ptr == '/' || *ptr == '\\') path = ptr + 1;\<close>
  The first argument is \<^verbatim>\<open>path\<close>, the second the text from \<^verbatim>\<open>ptr\<close> on.
\<close>

fun filename_loop :: "string \<Rightarrow> string \<Rightarrow> string" where
  "filename_loop path [] = path"
| "filename_loop path (c # rest) =
     (if is_path_separator c then filename_loop rest rest else filename_loop path rest)"

definition filename :: "string \<Rightarrow> string" where
  "filename path = filename_loop path path"

text \<open>The static buffer of \<^verbatim>\<open>indentation\<close>: ten literals of ten markers each.\<close>

definition indentation_buff :: string where
  "indentation_buff =
     ''.   .   .   .   .   .   .   .   .   .   '' @ ''.   .   .   .   .   .   .   .   .   .   '' @
     ''.   .   .   .   .   .   .   .   .   .   '' @ ''.   .   .   .   .   .   .   .   .   .   '' @
     ''.   .   .   .   .   .   .   .   .   .   '' @ ''.   .   .   .   .   .   .   .   .   .   '' @
     ''.   .   .   .   .   .   .   .   .   .   '' @ ''.   .   .   .   .   .   .   .   .   .   '' @
     ''.   .   .   .   .   .   .   .   .   .   '' @ ''.   .   .   .   .   .   .   .   .   .   ''"

text \<open>
  \<^verbatim>\<open>depth = std::min<unsigned>(depth, 100); return buff + 4 * (100 - depth);\<close>
\<close>

definition indentation :: "32 word \<Rightarrow> string" where
  "indentation depth =
     (let depth' = min depth 100 in drop (unat (4 * (100 - depth'))) indentation_buff)"

text \<open>The marker of one level, for stating what \<^const>\<open>indentation\<close> returns.\<close>

definition indentation_marker :: string where
  "indentation_marker = ''.   ''"

subsection \<open>Verbosity, messages, callbacks\<close>

type_synonym Verbosity = int

definition FATAL :: Verbosity where "FATAL = - 3"
definition ERROR :: Verbosity where "ERROR = - 2"
definition WARNING :: Verbosity where "WARNING = - 1"

record Message =
  msg_verbosity :: Verbosity
  msg_filename :: string
  msg_line :: "32 word"
  msg_preamble :: string
  msg_indentation :: string
  msg_prefix :: string
  msg_message :: string

text \<open>
  Function pointers are opaque: the two handlers the library itself installs are named,
  a user's handler is a number. \<^verbatim>\<open>void* user_data\<close> is a number too.
\<close>

datatype log_handler = file_log | user_callback nat
datatype close_handler = file_close | user_close nat
datatype fatal_handler = std_abort | user_fatal nat

record Callback =
  cb_id :: string
  cb_callback :: log_handler
  cb_user_data :: nat
  cb_verbosity :: Verbosity
  cb_close :: "close_handler option"

subsection \<open>The global state and what the program does to the outside\<close>

datatype stream = s_err | s_out

text \<open>
  Every effect on the outside world is an event appended to the state's \<open>events\<close>:
  a line written to a stream and flushed, a handler called, a system call.
\<close>

datatype event =
    Write stream string
  | Invoke log_handler nat Message
  | Closed close_handler nat
  | Mkdir string
  | Fopen string string
  | FileWrite nat string
  | FatalHandler fatal_handler
  | Abort

record state =
  g_verbosity :: Verbosity
  s_callbacks :: "Callback list"
  s_fatal_handler :: "fatal_handler option"
  s_strip_file_path :: bool
  s_indentation :: "32 word"
  s_file_arguments :: string
  events :: "event list"

text \<open>
  What the operating system and the C library answer. Clock readings and the thread name
  depend on the moment of the call, which is the number of events so far.
  \<open>date_time\<close> is the rendering of \<^verbatim>\<open>%04d-%02d-%02d %02d:%02d:%02d.%03ld\<close>,
  \<open>uptime\<close> that of \<^verbatim>\<open>%8.3f\<close>, \<open>thread_name\<close> the content of the buffer
  \<^verbatim>\<open>thread_name\<close>; \<open>printf_seconds p ns\<close> is the rendering by \<^verbatim>\<open>%.*f\<close> with
  precision \<open>p\<close> of the double \<^verbatim>\<open>ns / 1e9\<close>. \<open>mkdir_errno\<close> is \<open>None\<close> when
  \<^verbatim>\<open>mkdir\<close> returns 0 and the value of \<^verbatim>\<open>errno\<close> when it returns -1;
  \<open>fopen_file\<close> is \<open>None\<close> for a null \<^verbatim>\<open>FILE*\<close>. \<open>backtrace_text\<close> is the string
  that \<^verbatim>\<open>stacktrace_as_stdstring\<close> builds from \<^verbatim>\<open>backtrace\<close> and \<^verbatim>\<open>dladdr\<close>
  before it is prettified; the four \<open>type_name\<close>s are the demangled names that
  \<^verbatim>\<open>type_name<T>()\<close> returns on the platform. \<open>header_file\<close> is what the compiler
  puts for \<^verbatim>\<open>__FILE__\<close> inside the header (the path it was included by), used by
  the log calls the library makes itself.
\<close>

datatype errno = EEXIST | EACCES | ENAMETOOLONG | ENOENT | ENOTDIR | ELOOP | other_errno nat

record os =
  date_time :: "nat \<Rightarrow> string"
  uptime :: "nat \<Rightarrow> string"
  thread_name :: "nat \<Rightarrow> string"
  now_ns :: "nat \<Rightarrow> int"
  printf_seconds :: "nat \<Rightarrow> int \<Rightarrow> string"
  mkdir_errno :: "string \<Rightarrow> errno option"
  fopen_file :: "string \<Rightarrow> string \<Rightarrow> nat option"
  backtrace_text :: "int \<Rightarrow> string"
  type_name_string :: string
  type_name_wstring :: string
  type_name_u16string :: string
  type_name_u32string :: string
  header_file :: string

text \<open>
  A call returns a value and a state, or ends in \<^verbatim>\<open>abort()\<close>, or never comes back
  (a loop that does not end).
\<close>

datatype 'a outcome = Returns 'a state | Aborts state | Hangs

definition emit :: "event list \<Rightarrow> state \<Rightarrow> state" where
  "emit es st = st\<lparr>events := events st @ es\<rparr>"

definition SCOPE_TIME_PRECISION :: nat where
  "SCOPE_TIME_PRECISION = 3"

definition THREAD_NAME_WIDTH :: nat where
  "THREAD_NAME_WIDTH = 16"


subsection \<open>\<^verbatim>\<open>printf\<close> conversions the code uses\<close>

definition digit_char :: "nat \<Rightarrow> char" where
  "digit_char d = char_of (of_char (CHR ''0'') + d)"

text \<open>\<^verbatim>\<open>%u\<close>, and \<^verbatim>\<open>%d\<close> of a value that is not negative.\<close>

fun dec_nat :: "nat \<Rightarrow> string" where
  "dec_nat n = (if n < 10 then [digit_char n] else dec_nat (n div 10) @ [digit_char (n mod 10)])"

declare dec_nat.simps [simp del]

text \<open>\<^verbatim>\<open>%d\<close>\<close>

definition dec_int :: "int \<Rightarrow> string" where
  "dec_int i = (if i < 0 then CHR ''-'' # dec_nat (nat (- i)) else dec_nat (nat i))"

text \<open>\<^verbatim>\<open>% d\<close>: a blank where the sign of a value that is not negative would be.\<close>

definition space_dec_int :: "int \<Rightarrow> string" where
  "space_dec_int i = (if i < 0 then CHR ''-'' # dec_nat (nat (- i)) else CHR '' '' # dec_nat (nat i))"

text \<open>A minimum field width: right-justified (\<^verbatim>\<open>%4s\<close>) and left-justified (\<^verbatim>\<open>%-5u\<close>).\<close>

definition pad_left :: "nat \<Rightarrow> string \<Rightarrow> string" where
  "pad_left w s = replicate (w - length s) (CHR '' '') @ s"

definition pad_right :: "nat \<Rightarrow> string \<Rightarrow> string" where
  "pad_right w s = s @ replicate (w - length s) (CHR '' '')"

text \<open>\<^verbatim>\<open>snprintf(buff, size, ...)\<close> keeps at most \<open>size - 1\<close> characters of the text.\<close>

definition snprintf :: "nat \<Rightarrow> string \<Rightarrow> string" where
  "snprintf n s = take (n - 1) s"

subsection \<open>The preamble\<close>

text \<open>
  \<^verbatim>\<open>char level_buff[6]\<close>, filled by \<^verbatim>\<open>strcpy\<close> or by
  \<^verbatim>\<open>snprintf(level_buff, sizeof(level_buff) - 1, "% 4d", verbosity)\<close>.
\<close>

definition level_buff :: "Verbosity \<Rightarrow> string" where
  "level_buff verbosity =
     (if verbosity \<le> FATAL then ''FATL''
      else if verbosity = ERROR then ''ERR''
      else if verbosity = WARNING then ''WARN''
      else snprintf (6 - 1) (pad_left 4 (space_dec_int verbosity)))"

text \<open>\<^verbatim>\<open>if (s_strip_file_path) file = filename(file);\<close>\<close>

definition preamble_file :: "state \<Rightarrow> string \<Rightarrow> string" where
  "preamble_file st file = (if s_strip_file_path st then filename file else file)"

text \<open>
  The format is
  \<^verbatim>\<open>"%04d-%02d-%02d %02d:%02d:%02d.%03ld (%8.3fs) [%-*s]%23s:%-5u %4s| "\<close>.
\<close>

definition print_preamble ::
  "os \<Rightarrow> nat \<Rightarrow> state \<Rightarrow> Verbosity \<Rightarrow> string \<Rightarrow> 32 word \<Rightarrow> string" where
  "print_preamble sys out_buff_size st verbosity file line =
     (let now = length (events st) in
      snprintf out_buff_size
        (date_time sys now @ '' ('' @ uptime sys now @ ''s) ['' @
         pad_right THREAD_NAME_WIDTH (thread_name sys now) @ '']'' @
         pad_left 23 (preamble_file st file) @ '':'' @ pad_right 5 (dec_nat (unat line)) @ '' '' @
         pad_left 4 (level_buff verbosity) @ ''| ''))"

subsection \<open>Dispatch\<close>

text \<open>
  \<^verbatim>\<open>for (auto& p : s_callbacks) if (verbosity <= p.verbosity) p.callback(p.user_data, message);\<close>
\<close>

fun call_callbacks :: "Callback list \<Rightarrow> Message \<Rightarrow> event list" where
  "call_callbacks [] message = []"
| "call_callbacks (p # ps) message =
     (if msg_verbosity message \<le> cb_verbosity p
      then Invoke (cb_callback p) (cb_user_data p) message # call_callbacks ps message
      else call_callbacks ps message)"

definition message_text :: "Message \<Rightarrow> string" where
  "message_text message =
     msg_preamble message @ msg_indentation message @ msg_prefix message @ msg_message message @
     [CHR 0x0A]"

definition log_message :: "Message \<Rightarrow> state \<Rightarrow> state" where
  "log_message message st =
     (let out = (if msg_verbosity message \<le> WARNING then s_err else s_out) in
      emit (Write out (message_text message) # call_callbacks (s_callbacks st) message) st)"

definition log_to_everywhere ::
  "os \<Rightarrow> Verbosity \<Rightarrow> string \<Rightarrow> 32 word \<Rightarrow> string \<Rightarrow> string \<Rightarrow> state \<Rightarrow> state" where
  "log_to_everywhere sys verbosity file line prefix' buff st =
     (let preamble_buff = print_preamble sys 128 st verbosity file line;
          message = \<lparr>msg_verbosity = verbosity, msg_filename = file, msg_line = line,
                     msg_preamble = preamble_buff,
                     msg_indentation = indentation (s_indentation st),
                     msg_prefix = prefix', msg_message = buff\<rparr>
      in log_message message st)"

text \<open>
  From here on a \<^verbatim>\<open>format, ...\<close> argument list is the text it formats to (what
  \<^verbatim>\<open>strprintfv\<close> returns); a format that \<^verbatim>\<open>vasprintf\<close> rejects, on which
  \<^verbatim>\<open>strprintfv\<close> aborts, is not an input of the model.
\<close>

definition log_to_everywhere_v ::
  "os \<Rightarrow> Verbosity \<Rightarrow> string \<Rightarrow> 32 word \<Rightarrow> string \<Rightarrow> string \<Rightarrow> state \<Rightarrow> state" where
  "log_to_everywhere_v sys verbosity file line prefix' text st =
     log_to_everywhere sys verbosity file line prefix' text st"

definition log :: "os \<Rightarrow> Verbosity \<Rightarrow> string \<Rightarrow> 32 word \<Rightarrow> string \<Rightarrow> state \<Rightarrow> state" where
  "log sys verbosity file line text st = log_to_everywhere_v sys verbosity file line [] text st"

text \<open>
  The macros. \<^verbatim>\<open>LOG_F(name, ...)\<close> is \<^verbatim>\<open>VLOG_F(loguru::NamedVerbosity::name, ...)\<close>.
  \<^verbatim>\<open>LOG_IF_F(name, cond, ...)\<close> passes the comparison
  \<^verbatim>\<open>loguru::NamedVerbosity::name > loguru::g_verbosity\<close> to \<^verbatim>\<open>VLOG_IF_F\<close> as its
  verbosity, a \<^verbatim>\<open>bool\<close> that is read as 0 or 1.
\<close>

definition VLOG_F :: "os \<Rightarrow> Verbosity \<Rightarrow> string \<Rightarrow> 32 word \<Rightarrow> string \<Rightarrow> state \<Rightarrow> state" where
  "VLOG_F sys verbosity file line text st =
     (if verbosity > g_verbosity st then st else log sys verbosity file line text st)"

definition LOG_F :: "os \<Rightarrow> Verbosity \<Rightarrow> string \<Rightarrow> 32 word \<Rightarrow> string \<Rightarrow> state \<Rightarrow> state" where
  "LOG_F sys verbosity_name file line text st = VLOG_F sys verbosity_name file line text st"



subsection \<open>The callback registry\<close>

definition set_fatal_handler :: "fatal_handler option \<Rightarrow> state \<Rightarrow> state" where
  "set_fatal_handler handler st = st\<lparr>s_fatal_handler := handler\<rparr>"

definition add_callback ::
  "string \<Rightarrow> log_handler \<Rightarrow> nat \<Rightarrow> Verbosity \<Rightarrow> close_handler option \<Rightarrow> state \<Rightarrow> state" where
  "add_callback ident callback user_data verbosity on_close st =
     st\<lparr>s_callbacks := s_callbacks st @
          [\<lparr>cb_id = ident, cb_callback = callback, cb_user_data = user_data,
            cb_verbosity = verbosity, cb_close = on_close\<rparr>]\<rparr>"

text \<open>\<^verbatim>\<open>std::find_if\<close>: the index of the first element that satisfies the predicate.\<close>

fun find_if :: "('a \<Rightarrow> bool) \<Rightarrow> 'a list \<Rightarrow> nat option" where
  "find_if pred [] = None"
| "find_if pred (x # xs) = (if pred x then Some 0 else map_option Suc (find_if pred xs))"

text \<open>\<^verbatim>\<open>vector::erase(it)\<close>\<close>

definition erase :: "'a list \<Rightarrow> nat \<Rightarrow> 'a list" where
  "erase xs it = take it xs @ drop (Suc it) xs"

definition remove_callback :: "os \<Rightarrow> string \<Rightarrow> state \<Rightarrow> state" where
  "remove_callback sys ident st =
     (case find_if (\<lambda>c. cb_id c = ident) (s_callbacks st) of
        Some it \<Rightarrow>
          (let c = s_callbacks st ! it;
               st' = (case cb_close c of
                        Some close \<Rightarrow> emit [Closed close (cb_user_data c)] st
                      | None \<Rightarrow> st)
           in st'\<lparr>s_callbacks := erase (s_callbacks st') it\<rparr>)
      | None \<Rightarrow>
          LOG_F sys ERROR (header_file sys) 941
            (''Failed to locate callback with id '' @ [CHR 0x27] @ ident @ [CHR 0x27]) st)"

subsection \<open>Scopes\<close>

text \<open>
  \<open>scope_file\<close> is \<^verbatim>\<open>_file\<close>, \<open>None\<close> for the null pointer that
  marks a disabled scope; \<open>scope_name\<close> is \<^verbatim>\<open>char _name[128]\<close>, which the
  constructor leaves unwritten (and the destructor unread) when the scope is disabled.
\<close>

record LogScopeRAII =
  scope_verbosity :: Verbosity
  scope_file :: "string option"
  scope_line :: "32 word"
  scope_start_time_ns :: int
  scope_name :: string

text \<open>
  The constructor; \<^verbatim>\<open>vsnprintf(_name, sizeof(_name), format, vlist)\<close> keeps the first
  127 characters of the formatted text.
\<close>

definition LogScopeRAII_ctor ::
  "os \<Rightarrow> Verbosity \<Rightarrow> string \<Rightarrow> 32 word \<Rightarrow> string \<Rightarrow> state \<Rightarrow> LogScopeRAII \<times> state" where
  "LogScopeRAII_ctor sys verbosity file line text st =
     (let start = now_ns sys (length (events st)) in
      if verbosity \<le> g_verbosity st then
        (let name = snprintf 128 text;
             st1 = log_to_everywhere sys verbosity file line ''{ '' name st
         in (\<lparr>scope_verbosity = verbosity, scope_file = Some file, scope_line = line,
               scope_start_time_ns = start, scope_name = name\<rparr>,
             st1\<lparr>s_indentation := s_indentation st1 + 1\<rparr>))
      else
        (\<lparr>scope_verbosity = verbosity, scope_file = None, scope_line = line,
           scope_start_time_ns = start, scope_name = []\<rparr>, st))"

text \<open>The destructor; the format is \<^verbatim>\<open>"} %.*f s: %s"\<close>.\<close>

definition LogScopeRAII_dtor :: "os \<Rightarrow> LogScopeRAII \<Rightarrow> state \<Rightarrow> state" where
  "LogScopeRAII_dtor sys this st =
     (case scope_file this of
        Some file \<Rightarrow>
          (let st1 = st\<lparr>s_indentation := s_indentation st - 1\<rparr>;
               duration_ns = now_ns sys (length (events st1)) - scope_start_time_ns this
           in log sys (scope_verbosity this) file (scope_line this)
                (''} '' @ printf_seconds sys SCOPE_TIME_PRECISION duration_ns @ '' s: '' @
                 scope_name this) st1)
      | None \<Rightarrow> st)"

subsection \<open>Stack traces\<close>

definition REPLACE_LIST :: "os \<Rightarrow> (string \<times> string) list" where
  "REPLACE_LIST sys =
     [(type_name_string sys, ''std::string''),
      (type_name_wstring sys, ''std::wstring''),
      (type_name_u16string sys, ''std::u16string''),
      (type_name_u32string sys, ''std::u32string''),
      (''std::__1::'', ''std::''),
      (''__thiscall '', ''''),
      (''__cdecl '', '''')]"

text \<open>\<^verbatim>\<open>std::string::find\<close>: the first position where the pattern starts.\<close>

fun find_str :: "string \<Rightarrow> string \<Rightarrow> nat option" where
  "find_str pat [] = (if pat = [] then Some 0 else None)"
| "find_str pat (c # rest) =
     (if prefix pat (c # rest) then Some 0 else map_option Suc (find_str pat rest))"

text \<open>\<^verbatim>\<open>output.replace(it, n, new)\<close>\<close>

definition replace_at :: "string \<Rightarrow> nat \<Rightarrow> nat \<Rightarrow> string \<Rightarrow> string" where
  "replace_at output it n new = take it output @ new @ drop (it + n) output"

text \<open>
  \<^verbatim>\<open>while ((it=output.find(p.first)) != std::string::npos) output.replace(...)\<close>;
  \<open>None\<close> when the loop does not end.
\<close>

partial_function (option) replace_while :: "string \<Rightarrow> string \<Rightarrow> string \<Rightarrow> string option" where
  "replace_while pat new output =
     (case find_str pat output of
        None \<Rightarrow> Some output
      | Some it \<Rightarrow> replace_while pat new (replace_at output it (length pat) new))"

declare replace_while.simps [code]

fun replace_each :: "(string \<times> string) list \<Rightarrow> string \<Rightarrow> string option" where
  "replace_each [] output = Some output"
| "replace_each (p # ps) output =
     (case replace_while (fst p) (snd p) output of
        None \<Rightarrow> None
      | Some output' \<Rightarrow> replace_each ps output')"

text \<open>
  The two regular expressions need one character class per position, with no
  alternation and no nesting: a pattern is a list of atoms, each a class taken once,
  any number of times (\<^verbatim>\<open>*\<close>) or at least once (\<^verbatim>\<open>+\<close>). Matching is
  the backtracking one of ECMAScript: a repetition takes as many characters as it can
  and gives them back one at a time while the rest of the pattern fails. A match
  returns the text each atom took and the text after the match.
\<close>

definition is_space :: "char \<Rightarrow> bool" where
  "is_space c = (c \<in> set [CHR '' '', CHR 0x09, CHR 0x0A, CHR 0x0B, CHR 0x0C, CHR 0x0D])"

datatype char_class = Chr char | Space | NoneOf string

fun in_class :: "char_class \<Rightarrow> char \<Rightarrow> bool" where
  "in_class (Chr c) x = (x = c)"
| "in_class Space x = is_space x"
| "in_class (NoneOf cs) x = (x \<notin> set cs)"

datatype atom = Once char_class | Many char_class | Many1 char_class

type_synonym match = "string list \<times> string"

fun greedy :: "(string \<Rightarrow> match option) \<Rightarrow> string \<Rightarrow> nat \<Rightarrow> nat \<Rightarrow> match option" where
  "greedy k s lo n =
     (if n < lo then None
      else case k (drop n s) of
             Some (segs, rest) \<Rightarrow> Some (take n s # segs, rest)
           | None \<Rightarrow> (if n = 0 then None else greedy k s lo (n - 1)))"

declare greedy.simps [simp del]

primrec match_atoms :: "atom list \<Rightarrow> string \<Rightarrow> match option" where
  "match_atoms [] = (\<lambda>s. Some ([], s))"
| "match_atoms (a # as) = (\<lambda>s.
     case a of
       Once c \<Rightarrow> (case s of
                    [] \<Rightarrow> None
                  | x # rest \<Rightarrow> if in_class c x then greedy (match_atoms as) s 1 1 else None)
     | Many c \<Rightarrow> greedy (match_atoms as) s 0 (length (takeWhile (in_class c) s))
     | Many1 c \<Rightarrow> greedy (match_atoms as) s 1 (length (takeWhile (in_class c) s)))"

text \<open>
  \<^verbatim>\<open>std::regex_replace\<close>: every match, leftmost first and not overlapping, is
  replaced by the format applied to it; \<open>skip\<close> counts the characters of the last
  match that are still to be passed over. Both patterns take at least one character.
\<close>

fun regex_replace_from :: "atom list \<Rightarrow> (string list \<Rightarrow> string) \<Rightarrow> nat \<Rightarrow> string \<Rightarrow> string" where
  "regex_replace_from re fmt skip [] = []"
| "regex_replace_from re fmt (Suc skip) (c # rest) = regex_replace_from re fmt skip rest"
| "regex_replace_from re fmt 0 (c # rest) =
     (case match_atoms re (c # rest) of
        Some (segs, _) \<Rightarrow> fmt segs @ regex_replace_from re fmt (length (concat segs) - 1) rest
      | None \<Rightarrow> c # regex_replace_from re fmt 0 rest)"

definition regex_replace :: "string \<Rightarrow> atom list \<Rightarrow> (string list \<Rightarrow> string) \<Rightarrow> string" where
  "regex_replace s re fmt = regex_replace_from re fmt 0 s"

definition literal :: "string \<Rightarrow> atom list" where
  "literal s = map (\<lambda>c. Once (Chr c)) s"

text \<open>\<^verbatim>\<open>,\s*std::allocator<[^<>]+>\<close> and \<^verbatim>\<open><\s*([^<> ]+)\s*>\<close>\<close>

definition std_allocator_re :: "atom list" where
  "std_allocator_re =
     literal '','' @ [Many Space] @ literal ''std::allocator<'' @ [Many1 (NoneOf ''<>'')] @ literal ''>''"

definition template_spaces_re :: "atom list" where
  "template_spaces_re =
     literal ''<'' @ [Many Space, Many1 (NoneOf ''<> ''), Many Space] @ literal ''>''"

definition prettify_stacktrace :: "os \<Rightarrow> string \<Rightarrow> string option" where
  "prettify_stacktrace sys input =
     (case replace_each (REPLACE_LIST sys) input of
        None \<Rightarrow> None
      | Some output \<Rightarrow>
          (let output1 = regex_replace output std_allocator_re (\<lambda>segs. []);
               output2 = regex_replace output1 template_spaces_re (\<lambda>segs. ''<'' @ segs ! 2 @ ''>'')
           in Some output2))"

definition stacktrace_as_stdstring :: "os \<Rightarrow> int \<Rightarrow> string option" where
  "stacktrace_as_stdstring sys skip = prettify_stacktrace sys (backtrace_text sys skip)"

definition stacktrace :: "os \<Rightarrow> int \<Rightarrow> string option" where
  "stacktrace sys skip = stacktrace_as_stdstring sys (skip + 1)"

subsection \<open>The fatal path\<close>

text \<open>
  \<^verbatim>\<open>if (s_fatal_handler) s_fatal_handler(); abort();\<close> The handler installed at start
  is \<^verbatim>\<open>::abort\<close> itself, which does not come back; a user's handler is taken to return.
\<close>

definition call_fatal_handler :: "state \<Rightarrow> 'a outcome" where
  "call_fatal_handler st =
     (case s_fatal_handler st of
        Some std_abort \<Rightarrow> Aborts (emit [FatalHandler std_abort] st)
      | Some handler \<Rightarrow> Aborts (emit [Abort] (emit [FatalHandler handler] st))
      | None \<Rightarrow> Aborts (emit [Abort] st))"

definition log_and_abort ::
  "os \<Rightarrow> int \<Rightarrow> string \<Rightarrow> string \<Rightarrow> 32 word \<Rightarrow> string \<Rightarrow> state \<Rightarrow> 'a outcome" where
  "log_and_abort sys stack_trace_skip expr file line text st =
     (case stacktrace sys (stack_trace_skip + 2) of
        None \<Rightarrow> Hangs
      | Some trace \<Rightarrow>
          (let st1 = (if trace \<noteq> []
                      then LOG_F sys ERROR (header_file sys) 1207 (''Stack trace:'' @ [CHR 0x0A] @ trace) st
                      else st);
               st2 = log_to_everywhere_v sys FATAL file line expr text st1
           in call_fatal_handler st2))"


subsection \<open>File sinks\<close>







subsection \<open>Names used in the statements\<close>

text \<open>
  What the dispatch of one message adds to the events, written out: the line on the
  error stream (negative severities) or the output stream, then one call per sink whose
  cutoff is at least the severity, in registry order, each with the message record.
\<close>

definition dispatch_events ::
  "os \<Rightarrow> Verbosity \<Rightarrow> string \<Rightarrow> 32 word \<Rightarrow> string \<Rightarrow> string \<Rightarrow> state \<Rightarrow> event list" where
  "dispatch_events sys verbosity fname line prefix' body st =
     Write (if verbosity < 0 then s_err else s_out)
       (print_preamble sys 128 st verbosity fname line @ indentation (s_indentation st) @
        prefix' @ body @ [CHR 0x0A]) #
     map (\<lambda>p. Invoke (cb_callback p) (cb_user_data p)
            \<lparr>msg_verbosity = verbosity, msg_filename = fname, msg_line = line,
             msg_preamble = print_preamble sys 128 st verbosity fname line,
             msg_indentation = indentation (s_indentation st),
             msg_prefix = prefix', msg_message = body\<rparr>)
       (filter (\<lambda>p. verbosity \<le> cb_verbosity p) (s_callbacks st))"






text \<open>Prettifying a text \<open>n\<close> times over.\<close>

fun prettify_times :: "os \<Rightarrow> nat \<Rightarrow> string \<Rightarrow> string option" where
  "prettify_times sys 0 x = Some x"
| "prettify_times sys (Suc n) x =
     (case prettify_stacktrace sys x of None \<Rightarrow> None | Some y \<Rightarrow> prettify_times sys n y)"

text \<open>
  The condition on the platform under which the substitution loops end: each of the
  four type names is longer than the alias that replaces it.
\<close>

definition long_type_names :: "os \<Rightarrow> bool" where
  "long_type_names sys =
     (length ''std::string'' < length (type_name_string sys)
      \<and> length ''std::wstring'' < length (type_name_wstring sys)
      \<and> length ''std::u16string'' < length (type_name_u16string sys)
      \<and> length ''std::u32string'' < length (type_name_u32string sys))"

subsection \<open>Example data\<close>

text \<open>
  A platform with the type names of libc++, a clock that stands still, a file system
  where every call succeeds and a one-line backtrace; and the state at program start.
\<close>

definition example_os :: os where
  "example_os =
     \<lparr>date_time = (\<lambda>_. ''2015-10-24 12:00:00.000''), uptime = (\<lambda>_. ''   0.001''),
      thread_name = (\<lambda>_. ''main thread''), now_ns = (\<lambda>n. int n),
      printf_seconds = (\<lambda>p ns. ''0.000''),
      mkdir_errno = (\<lambda>_. None), fopen_file = (\<lambda>_ _. Some 1),
      backtrace_text = (\<lambda>_. ''0 main''),
      type_name_string =
        ''std::__1::basic_string<char, std::__1::char_traits<char>, std::__1::allocator<char> >'',
      type_name_wstring =
        ''std::__1::basic_string<wchar_t, std::__1::char_traits<wchar_t>, std::__1::allocator<wchar_t> >'',
      type_name_u16string =
        ''std::__1::basic_string<char16_t, std::__1::char_traits<char16_t>, std::__1::allocator<char16_t> >'',
      type_name_u32string =
        ''std::__1::basic_string<char32_t, std::__1::char_traits<char32_t>, std::__1::allocator<char32_t> >'',
      header_file = ''../../src/loguru.hpp''\<rparr>"

definition example_state :: state where
  "example_state =
     \<lparr>g_verbosity = 0, s_callbacks = [], s_fatal_handler = Some std_abort,
      s_strip_file_path = True, s_indentation = 0, s_file_arguments = ''prog'', events = []\<rparr>"

definition example_message :: Message where
  "example_message =
     \<lparr>msg_verbosity = 0, msg_filename = ''main.cpp'', msg_line = 7, msg_preamble = ''| '',
      msg_indentation = [], msg_prefix = [], msg_message = ''hello''\<rparr>"

section \<open>Properties of the helpers\<close>

lemma filename_loop_suffix:
  "\<exists>pre. pre @ filename_loop path rest = whole \<and> (pre = [] \<or> is_path_separator (last pre))"
  if "\<exists>pre. pre @ path = whole \<and> (pre = [] \<or> is_path_separator (last pre))"
     "\<exists>pre. pre @ rest = whole"
  using that
proof (induction rest arbitrary: path)
  case Nil
  then show ?case by simp
next
  case (Cons c rest)
  from Cons.prems(2) obtain q where q: "q @ c # rest = whole" by blast
  then have r: "(q @ [c]) @ rest = whole" by simp
  show ?case
  proof (cases "is_path_separator c")
    case True
    have "\<exists>pre. pre @ rest = whole \<and> (pre = [] \<or> is_path_separator (last pre))"
      using r True by (intro exI [of _ "q @ [c]"]) simp
    moreover have "\<exists>pre. pre @ rest = whole" using r by blast
    ultimately show ?thesis using True Cons.IH [of rest] by simp
  next
    case False
    have "\<exists>pre. pre @ rest = whole" using r by blast
    then show ?thesis using False Cons.IH [of path] Cons.prems(1) by simp
  qed
qed

lemma filename_loop_no_separator:
  "\<forall>c \<in> set (filename_loop path rest). \<not> is_path_separator c"
  if "\<exists>pre. path = pre @ rest \<and> (\<forall>c \<in> set pre. \<not> is_path_separator c)"
  using that
proof (induction rest arbitrary: path)
  case Nil
  then show ?case by auto
next
  case (Cons c rest)
  show ?case
  proof (cases "is_path_separator c")
    case True
    have "\<exists>pre. rest = pre @ rest \<and> (\<forall>c \<in> set pre. \<not> is_path_separator c)"
      by (intro exI [of _ "[]"]) simp
    then show ?thesis using True Cons.IH [of rest] by simp
  next
    case False
    from Cons.prems obtain pre where
      pre: "path = pre @ c # rest" "\<forall>c \<in> set pre. \<not> is_path_separator c" by blast
    have "\<exists>p. path = p @ rest \<and> (\<forall>c \<in> set p. \<not> is_path_separator c)"
      using pre False by (intro exI [of _ "pre @ [c]"]) simp
    then show ?thesis using False Cons.IH [of path] by simp
  qed
qed

lemma filename_decomposition:
  "\<exists>pre. path = pre @ filename path \<and> (pre = [] \<or> is_path_separator (last pre))"
proof -
  have "\<exists>pre. pre @ filename_loop path path = path \<and> (pre = [] \<or> is_path_separator (last pre))"
    by (rule filename_loop_suffix) simp_all
  then show ?thesis unfolding filename_def by metis
qed

lemma filename_has_no_separator:
  "\<forall>c \<in> set (filename path). \<not> is_path_separator c"
  unfolding filename_def
  by (rule filename_loop_no_separator) simp

lemma indentation_buff_replicate:
  "indentation_buff = concat (replicate 100 indentation_marker)"
  unfolding indentation_buff_def indentation_marker_def
  by (simp add: numeral_eq_Suc)

lemma drop_concat_replicate:
  "drop (length m * n) (concat (replicate (n + k) m)) = concat (replicate k m)"
  by (induction n) (simp_all add: replicate_add)

section \<open>The basename helper and the indentation string\<close>

text \<open>
  Claim C10. For every path, \<^const>\<open>filename\<close> returns the suffix of the path that
  starts right after its last \<^verbatim>\<open>/\<close> or backslash: the path is some text that is
  empty or ends in a separator, followed by the result, and the result holds no
  separator. A path without a separator is returned whole, a path that ends in a
  separator gives the empty string. The result is always a string (a pointer into the
  argument), never a null pointer.
\<close>

theorem filename_basename:
  "(\<exists>pre. path = pre @ filename path \<and> (pre = [] \<or> is_path_separator (last pre)))
   \<and> (\<forall>c \<in> set (filename path). \<not> is_path_separator c)
   \<and> ((\<forall>c \<in> set path. \<not> is_path_separator c) \<longrightarrow> filename path = path)
   \<and> (path \<noteq> [] \<and> is_path_separator (last path) \<longrightarrow> filename path = [])"
proof -
  obtain pre where pre: "path = pre @ filename path" "pre = [] \<or> is_path_separator (last pre)"
    using filename_decomposition by blast
  note nosep = filename_has_no_separator [of path]
  have a: "filename path = path" if "\<forall>c \<in> set path. \<not> is_path_separator c"
  proof (cases "pre = []")
    case True
    then show ?thesis using pre(1) by simp
  next
    case False
    then have "last pre \<in> set path" using pre(1)
      by (metis last_in_set Un_iff set_append)
    then show ?thesis using that pre(2) False by blast
  qed
  have b: "filename path = []" if "path \<noteq> []" "is_path_separator (last path)"
  proof (rule ccontr)
    assume ne: "filename path \<noteq> []"
    then have "last path = last (filename path)" using pre(1) by (metis last_appendR)
    then show False using nosep that(2) ne last_in_set by metis
  qed
  from pre nosep a b show ?thesis by blast
qed

theorem filename_basename_witness:
  "list_all (\<lambda>c. \<not> is_path_separator c) ''main.cpp'' \<and> filename ''main.cpp'' = ''main.cpp''
   \<and> ''src/'' \<noteq> [] \<and> is_path_separator (last ''src/'') \<and> filename ''src/'' = []"
  using filename_basename [of "''main.cpp''"] filename_basename [of "''src/''"]
  by (simp add: is_path_separator_def)

lemma unat_offset:
  fixes d :: "32 word"
  shows "unat (4 * (100 - min d 100)) = 4 * (100 - min (unat d) 100)"
proof -
  have le: "min d 100 \<le> 100" by simp
  have m: "unat (min d 100) = min (unat d) 100"
    by (simp add: min_def word_le_nat_alt)
  have s: "unat (100 - min d 100) = 100 - min (unat d) 100"
    using unat_sub [OF le] m by simp
  have "unat (4 :: 32 word) * unat (100 - min d 100) < 2 ^ LENGTH(32)"
    unfolding s by simp
  then have "unat (4 * (100 - min d 100)) = unat (4 :: 32 word) * unat (100 - min d 100)"
    by (rule unat_mult_lem [THEN iffD1])
  also have "\<dots> = 4 * (100 - min (unat d) 100)"
    unfolding s by simp
  finally show ?thesis .
qed

text \<open>
  Claim C9. For every depth \<open>d\<close> (an \<^verbatim>\<open>unsigned\<close>, so never negative), the
  indentation string is the four-character marker repeated \<open>min d 100\<close> times; from
  depth 100 on it no longer grows.
\<close>

theorem indentation_repeats_marker:
  "indentation d = concat (replicate (min (unat d) 100) indentation_marker)
   \<and> length indentation_marker = 4
   \<and> (100 \<le> d \<longrightarrow> indentation d = indentation 100)"
proof -
  let ?k = "min (unat d) 100"
  have len: "length indentation_marker = 4" by (simp add: indentation_marker_def)
  have "indentation d = drop (4 * (100 - ?k)) (concat (replicate 100 indentation_marker))"
    unfolding indentation_def Let_def unat_offset indentation_buff_replicate ..
  also have "\<dots> = drop (length indentation_marker * (100 - ?k))
                     (concat (replicate ((100 - ?k) + ?k) indentation_marker))"
    by (simp add: len)
  also have "\<dots> = concat (replicate ?k indentation_marker)"
    by (rule drop_concat_replicate)
  finally have main: "indentation d = concat (replicate ?k indentation_marker)" .
  have "indentation d = indentation 100" if "100 \<le> d"
  proof -
    have "min d 100 = min (100 :: 32 word) 100" using that by (simp add: min_def)
    then show ?thesis by (simp add: indentation_def)
  qed
  with main len show ?thesis by blast
qed

theorem indentation_repeats_marker_witness:
  "(100 :: 32 word) \<le> 250 \<and> indentation 250 = indentation 100"
proof -
  have h: "(100 :: 32 word) \<le> 250" by simp
  from indentation_repeats_marker [of 250] h show ?thesis by blast
qed

section \<open>Dispatch to the sinks\<close>


lemma log_message_emit:
  "log_message message st =
     emit (Write (if msg_verbosity message \<le> WARNING then s_err else s_out) (message_text message) #
           call_callbacks (s_callbacks st) message) st"
  by (simp add: log_message_def Let_def)

lemma call_callbacks_map_filter:
  "call_callbacks ps message =
     map (\<lambda>p. Invoke (cb_callback p) (cb_user_data p) message)
       (filter (\<lambda>p. msg_verbosity message \<le> cb_verbosity p) ps)"
  by (induction ps) simp_all

lemma log_to_everywhere_emit:
  "log_to_everywhere sys verbosity file line prefix' buff st =
     emit (dispatch_events sys verbosity file line prefix' buff st) st"
  by (simp add: log_to_everywhere_def log_message_emit dispatch_events_def Let_def
      message_text_def WARNING_def call_callbacks_map_filter)

text \<open>
  Claim C3. A message handed to \<^const>\<open>log_message\<close> is written to one stream and
  then every registered sink whose cutoff is at least the message's severity is called
  exactly once, with that message and the sink's own \<^verbatim>\<open>user_data\<close>, in the order
  of registration; the other sinks are passed over and the registry is left as it was.
  \<^const>\<open>add_callback\<close> puts the new sink at the end of the registry and does nothing
  else.
\<close>

theorem log_message_invokes_eligible_sinks_in_order:
  "events (log_message message st) =
     events st @
     Write (if msg_verbosity message \<le> WARNING then s_err else s_out) (message_text message) #
     map (\<lambda>p. Invoke (cb_callback p) (cb_user_data p) message)
       (filter (\<lambda>p. msg_verbosity message \<le> cb_verbosity p) (s_callbacks st))
   \<and> s_callbacks (log_message message st) = s_callbacks st
   \<and> s_callbacks (add_callback ident callback user_data verbosity on_close st) =
       s_callbacks st @
       [\<lparr>cb_id = ident, cb_callback = callback, cb_user_data = user_data,
         cb_verbosity = verbosity, cb_close = on_close\<rparr>]
   \<and> events (add_callback ident callback user_data verbosity on_close st) = events st"
  by (simp add: log_message_def emit_def add_callback_def call_callbacks_map_filter Let_def)

theorem log_message_invokes_eligible_sinks_in_order_witness:
  "events (log_message example_message
     (add_callback ''c'' (user_callback 3) 30 (- 1) None
       (add_callback ''b'' (user_callback 2) 20 9 None
         (add_callback ''a'' (user_callback 1) 10 0 None example_state)))) =
     [Write s_out ''| hello\<newline>'',
      Invoke (user_callback 1) 10 example_message,
      Invoke (user_callback 2) 20 example_message]"
  using
    log_message_invokes_eligible_sinks_in_order
      [of example_message "add_callback ''c'' (user_callback 3) 30 (- 1) None
         (add_callback ''b'' (user_callback 2) 20 9 None
           (add_callback ''a'' (user_callback 1) 10 0 None example_state))"]
    log_message_invokes_eligible_sinks_in_order
      [of _ "add_callback ''b'' (user_callback 2) 20 9 None
           (add_callback ''a'' (user_callback 1) 10 0 None example_state)"
          "''c''" "user_callback 3" 30 "- 1" None]
    log_message_invokes_eligible_sinks_in_order
      [of _ "add_callback ''a'' (user_callback 1) 10 0 None example_state"
          "''b''" "user_callback 2" 20 9 None]
    log_message_invokes_eligible_sinks_in_order
      [of _ example_state "''a''" "user_callback 1" 10 0 None]
  by (simp add: example_state_def example_message_def message_text_def WARNING_def)

section \<open>The verbosity threshold\<close>

text \<open>
  Claim C1 says that a call of negative severity is accepted whatever the threshold, as
  the comment on \<^verbatim>\<open>NamedVerbosity\<close> does ("Negative numbers go to stderr and cannot
  be skipped"). \<^verbatim>\<open>VLOG_F\<close> compares every severity with \<^verbatim>\<open>g_verbosity\<close>: with the
  threshold at \<^verbatim>\<open>ERROR\<close> (-2, as after \<^verbatim>\<open>-v -2\<close>) a \<^verbatim>\<open>WARNING\<close> call does
  nothing at all.
\<close>

theorem VLOG_F_drops_WARNING_below_threshold:
  "VLOG_F sys WARNING file line text (st\<lparr>g_verbosity := ERROR\<rparr>) = st\<lparr>g_verbosity := ERROR\<rparr>"
  by (simp add: VLOG_F_def WARNING_def ERROR_def)

theorem VLOG_F_drops_WARNING_below_threshold_witness:
  "VLOG_F example_os WARNING ''main.cpp'' 7 ''careful'' (example_state\<lparr>g_verbosity := ERROR\<rparr>) =
     example_state\<lparr>g_verbosity := ERROR\<rparr>"
  using VLOG_F_drops_WARNING_below_threshold [where sys = example_os and st = example_state] .

text \<open>
  Claim C4 says that removing an unknown id is reported as an \<^verbatim>\<open>ERROR\<close>-level
  message. The report is a \<^verbatim>\<open>LOG_F(ERROR, ...)\<close>, so with the threshold at
  \<^verbatim>\<open>FATAL\<close> (-3) nothing is reported: the state, its events included, is unchanged.
\<close>

theorem remove_callback_silent_below_threshold:
  "remove_callback sys ident (st\<lparr>g_verbosity := FATAL, s_callbacks := []\<rparr>) =
     st\<lparr>g_verbosity := FATAL, s_callbacks := []\<rparr>"
  by (simp add: remove_callback_def LOG_F_def VLOG_F_def FATAL_def ERROR_def)

section \<open>Scopes\<close>

text \<open>
  Claim C7, counterexample. The handle keeps the label in \<^verbatim>\<open>char _name[128]\<close>,
  written by \<^verbatim>\<open>vsnprintf(_name, sizeof(_name), ...)\<close>. Of a label of 128
  characters the entry message and the handle (and with it the exit message) carry the
  first 127 characters, not the original label.
\<close>

theorem scope_label_cut_counterexample:
  "events (snd (LogScopeRAII_ctor example_os 0 ''main.cpp'' 7 (replicate 128 (CHR ''a''))
      example_state)) =
     [Write s_out
        (''2015-10-24 12:00:00.000 (   0.001s) [main thread     ]'' @
         ''               main.cpp:7        0| { '' @ replicate 127 (CHR ''a'') @ [CHR 0x0A])]
   \<and> scope_name (fst (LogScopeRAII_ctor example_os 0 ''main.cpp'' 7 (replicate 128 (CHR ''a''))
      example_state)) = replicate 127 (CHR ''a'')"
  by code_simp

text \<open>
  Claim C7, amended. A scope whose severity is not negative and is above the threshold
  at entry records the null marker and leaves the state as it is (no message, same
  depth), and its destruction does nothing. A scope whose severity is at most the
  threshold dispatches at entry one message with prefix \<^verbatim>\<open>"{ "\<close> and the first
  127 characters of the label as body, to the stream and the eligible sinks, and then
  increments the depth by one; its destruction decrements the depth by one and then
  dispatches one message whose body is \<^verbatim>\<open>"} "\<close>, the elapsed seconds with 3
  decimals, \<^verbatim>\<open>" s: "\<close> and the first 127 characters of the label; an entry
  followed by the exit leaves the depth as it found it. A scope of negative severity
  above the threshold is outside the statement: the code treats it as disabled, which
  is the threshold test of claim C1.
\<close>

theorem scope_enter_exit:
  "(0 \<le> verbosity \<and> g_verbosity st < verbosity \<longrightarrow>
      scope_file (fst (LogScopeRAII_ctor sys verbosity fname line label st)) = None
      \<and> snd (LogScopeRAII_ctor sys verbosity fname line label st) = st
      \<and> LogScopeRAII_dtor sys (fst (LogScopeRAII_ctor sys verbosity fname line label st)) st2 = st2)
   \<and> (verbosity \<le> g_verbosity st \<longrightarrow>
      fst (LogScopeRAII_ctor sys verbosity fname line label st) =
        \<lparr>scope_verbosity = verbosity, scope_file = Some fname, scope_line = line,
         scope_start_time_ns = now_ns sys (length (events st)), scope_name = take 127 label\<rparr>
      \<and> snd (LogScopeRAII_ctor sys verbosity fname line label st) =
          (emit (dispatch_events sys verbosity fname line ''{ '' (take 127 label) st) st)
            \<lparr>s_indentation := s_indentation st + 1\<rparr>
      \<and> LogScopeRAII_dtor sys (fst (LogScopeRAII_ctor sys verbosity fname line label st)) st2 =
          emit (dispatch_events sys verbosity fname line []
                  (''} '' @ printf_seconds sys 3
                     (now_ns sys (length (events st2)) - now_ns sys (length (events st))) @
                   '' s: '' @ take 127 label)
                  (st2\<lparr>s_indentation := s_indentation st2 - 1\<rparr>))
            (st2\<lparr>s_indentation := s_indentation st2 - 1\<rparr>)
      \<and> s_indentation
          (LogScopeRAII_dtor sys (fst (LogScopeRAII_ctor sys verbosity fname line label st))
             (snd (LogScopeRAII_ctor sys verbosity fname line label st))) = s_indentation st)"
  by (simp add: LogScopeRAII_ctor_def LogScopeRAII_dtor_def Let_def log_def
      log_to_everywhere_v_def log_to_everywhere_emit emit_def SCOPE_TIME_PRECISION_def
      snprintf_def)

theorem scope_enter_exit_witness:
  "(0 :: int) \<le> g_verbosity example_state
   \<and> s_indentation (snd (LogScopeRAII_ctor example_os 0 ''main.cpp'' 7 ''work'' example_state)) = 1
   \<and> s_indentation
        (LogScopeRAII_dtor example_os
           (fst (LogScopeRAII_ctor example_os 0 ''main.cpp'' 7 ''work'' example_state))
           (snd (LogScopeRAII_ctor example_os 0 ''main.cpp'' 7 ''work'' example_state))) = 0
   \<and> (0 :: int) \<le> 1 \<and> g_verbosity example_state < 1
   \<and> LogScopeRAII_dtor example_os
        (fst (LogScopeRAII_ctor example_os 1 ''main.cpp'' 7 ''work'' example_state))
        example_state = example_state"
proof -
  have on: "(0 :: int) \<le> g_verbosity example_state"
    and off: "(0 :: int) \<le> 1 \<and> g_verbosity example_state < 1"
    and depth: "s_indentation example_state = 0"
    by (simp_all add: example_state_def)
  note a = scope_enter_exit [where sys = example_os and verbosity = 0 and fname = "''main.cpp''"
      and line = 7 and label = "''work''" and st = example_state and ?st2.0 = example_state]
  note b = scope_enter_exit [where sys = example_os and verbosity = 1 and fname = "''main.cpp''"
      and line = 7 and label = "''work''" and st = example_state and ?st2.0 = example_state]
  from a on have "snd (LogScopeRAII_ctor example_os 0 ''main.cpp'' 7 ''work'' example_state) =
      (emit (dispatch_events example_os 0 ''main.cpp'' 7 ''{ '' (take 127 ''work'') example_state)
         example_state)\<lparr>s_indentation := s_indentation example_state + 1\<rparr>"
    by blast
  then have one: "s_indentation
      (snd (LogScopeRAII_ctor example_os 0 ''main.cpp'' 7 ''work'' example_state)) = 1"
    using depth by simp
  from a on have two: "s_indentation
        (LogScopeRAII_dtor example_os
           (fst (LogScopeRAII_ctor example_os 0 ''main.cpp'' 7 ''work'' example_state))
           (snd (LogScopeRAII_ctor example_os 0 ''main.cpp'' 7 ''work'' example_state))) =
      s_indentation example_state"
    by blast
  from b off have three: "LogScopeRAII_dtor example_os
        (fst (LogScopeRAII_ctor example_os 1 ''main.cpp'' 7 ''work'' example_state))
        example_state = example_state"
    by blast
  from on off one two three depth show ?thesis by simp
qed

section \<open>The preamble\<close>

lemma dec_nat_length:
  "n < 1000 \<Longrightarrow> length (dec_nat n) \<le> 3"
proof -
  assume n: "n < 1000"
  have a: "length (dec_nat m) = 1" if "m < 10" for m
    using that by (subst dec_nat.simps) simp
  have b: "length (dec_nat m) \<le> 2" if "m < 100" for m
    using that a [of "m div 10"] a [of m] by (subst dec_nat.simps) auto
  show ?thesis
    using n b [of "n div 10"] b [of n] by (subst dec_nat.simps) auto
qed

lemma pad_left_space:
  "length s \<le> 3 \<Longrightarrow> snprintf 5 (pad_left 4 (CHR '' '' # s)) = pad_left 4 s"
proof -
  assume l: "length s \<le> 3"
  have "replicate (3 - length s) (CHR '' '') @ [CHR '' ''] = replicate (4 - length s) (CHR '' '')"
    using l by (metis Suc_diff_le eval_nat_numeral(2) replicate_append_same replicate_Suc semiring_norm(26,27))
  then show ?thesis using l by (simp add: snprintf_def pad_left_def)
qed

text \<open>
  Claim C8, counterexample. The preamble is written by \<^verbatim>\<open>snprintf\<close> into a
  buffer of 128 characters. With a file name of 64 characters and severity 0 the text
  ends inside the line column: the level field \<^verbatim>\<open>"   0"\<close> is not in the preamble.
\<close>

theorem preamble_long_file_counterexample:
  "print_preamble example_os 128 example_state 0 (replicate 64 (CHR ''f'')) 7 =
     ''2015-10-24 12:00:00.000 (   0.001s) [main thread     ]'' @ replicate 64 (CHR ''f'') @
     '':7       ''
   \<and> level_buff 0 = ''   0''"
  by code_simp

lemma level_buff_in_scale:
  assumes "verbosity \<le> 999"
  shows "pad_left 4 (level_buff verbosity) =
     pad_left 4 (if verbosity \<le> FATAL then ''FATL'' else if verbosity = ERROR then ''ERR''
                 else if verbosity = WARNING then ''WARN'' else dec_int verbosity)"
proof (cases "0 \<le> verbosity")
  case False
  then have "verbosity \<le> FATAL \<or> verbosity = ERROR \<or> verbosity = WARNING"
    using assms by (auto simp: FATAL_def ERROR_def WARNING_def)
  then show ?thesis by (auto simp: level_buff_def FATAL_def ERROR_def WARNING_def)
next
  case True
  have l: "length (dec_nat (nat verbosity)) \<le> 3"
    using True assms by (intro dec_nat_length) linarith
  have "level_buff verbosity = pad_left 4 (dec_int verbosity)"
    using True pad_left_space [OF l]
    by (simp add: level_buff_def FATAL_def ERROR_def WARNING_def space_dec_int_def dec_int_def)
  moreover have "pad_left 4 (pad_left 4 s) = pad_left 4 s" for s
    by (simp add: pad_left_def)
  ultimately show ?thesis using True by (simp add: FATAL_def ERROR_def WARNING_def)
qed

text \<open>
  Claim C8, amended. For every severity up to 999, every file and every line, the
  preamble is the first \<open>out_buff_size - 1\<close> characters of this text: date and time,
  the uptime, the thread name in a column of 16, the file right-justified in a column
  of 23 (its basename when the strip-path flag is set, the path as given otherwise),
  the line left-justified in a column of 5, and the level right-justified in a column
  of 4, which is \<^verbatim>\<open>FATL\<close> for \<^verbatim>\<open>FATAL\<close> and below, \<^verbatim>\<open>ERR\<close> for
  \<^verbatim>\<open>ERROR\<close>, \<^verbatim>\<open>WARN\<close> for \<^verbatim>\<open>WARNING\<close> and the signed decimal number
  otherwise, followed by \<^verbatim>\<open>"| "\<close>. When that text is shorter than the buffer,
  the preamble is the whole text, level field included.
\<close>

theorem preamble_fields:
  "verbosity \<le> 999 \<longrightarrow>
     print_preamble sys out_buff_size st verbosity fname line =
       take (out_buff_size - 1)
         (date_time sys (length (events st)) @ '' ('' @ uptime sys (length (events st)) @ ''s) ['' @
          pad_right 16 (thread_name sys (length (events st))) @ '']'' @
          pad_left 23 (if s_strip_file_path st then filename fname else fname) @ '':'' @
          pad_right 5 (dec_nat (unat line)) @ '' '' @
          pad_left 4 (if verbosity \<le> FATAL then ''FATL'' else if verbosity = ERROR then ''ERR''
                      else if verbosity = WARNING then ''WARN'' else dec_int verbosity) @ ''| '')
     \<and> (length
           (date_time sys (length (events st)) @ '' ('' @ uptime sys (length (events st)) @ ''s) ['' @
            pad_right 16 (thread_name sys (length (events st))) @ '']'' @
            pad_left 23 (if s_strip_file_path st then filename fname else fname) @ '':'' @
            pad_right 5 (dec_nat (unat line)) @ '' '' @
            pad_left 4 (if verbosity \<le> FATAL then ''FATL'' else if verbosity = ERROR then ''ERR''
                        else if verbosity = WARNING then ''WARN'' else dec_int verbosity) @ ''| '')
           < out_buff_size \<longrightarrow>
         print_preamble sys out_buff_size st verbosity fname line =
           date_time sys (length (events st)) @ '' ('' @ uptime sys (length (events st)) @ ''s) ['' @
           pad_right 16 (thread_name sys (length (events st))) @ '']'' @
           pad_left 23 (if s_strip_file_path st then filename fname else fname) @ '':'' @
           pad_right 5 (dec_nat (unat line)) @ '' '' @
           pad_left 4 (if verbosity \<le> FATAL then ''FATL'' else if verbosity = ERROR then ''ERR''
                       else if verbosity = WARNING then ''WARN'' else dec_int verbosity) @ ''| '')"
proof
  assume a: "verbosity \<le> 999"
  let ?level = "pad_left 4 (if verbosity \<le> FATAL then ''FATL'' else if verbosity = ERROR then ''ERR''
                      else if verbosity = WARNING then ''WARN'' else dec_int verbosity)"
  let ?full = "date_time sys (length (events st)) @ '' ('' @ uptime sys (length (events st)) @ ''s) ['' @
          pad_right 16 (thread_name sys (length (events st))) @ '']'' @
          pad_left 23 (if s_strip_file_path st then filename fname else fname) @ '':'' @
          pad_right 5 (dec_nat (unat line)) @ '' '' @ ?level @ ''| ''"
  have lv: "pad_left 4 (level_buff verbosity) = ?level"
    using a by (intro level_buff_in_scale)
  have eq: "print_preamble sys out_buff_size st verbosity fname line = take (out_buff_size - 1) ?full"
    unfolding print_preamble_def Let_def lv snprintf_def preamble_file_def THREAD_NAME_WIDTH_def
    by simp
  moreover have "take (out_buff_size - 1) ?full = ?full" if "length ?full < out_buff_size"
    using that by (intro take_all) linarith
  ultimately show "print_preamble sys out_buff_size st verbosity fname line =
       take (out_buff_size - 1) ?full
     \<and> (length ?full < out_buff_size \<longrightarrow>
         print_preamble sys out_buff_size st verbosity fname line = ?full)"
    by simp
qed

theorem preamble_fields_witness:
  "ERROR \<le> 999
   \<and> print_preamble example_os 128 example_state ERROR ''src/main.cpp'' 42 =
       ''2015-10-24 12:00:00.000 (   0.001s) [main thread     ]               main.cpp:42     ERR| ''
   \<and> (7 :: int) \<le> 999
   \<and> print_preamble example_os 128 example_state 7 ''src/main.cpp'' 42 =
       ''2015-10-24 12:00:00.000 (   0.001s) [main thread     ]               main.cpp:42       7| ''"
proof -
  have r: "ERROR \<le> 999" "(7 :: int) \<le> 999"
    by (simp_all add: FATAL_def ERROR_def)
  note a = preamble_fields [where sys = example_os and st = example_state and verbosity = ERROR
      and fname = "''src/main.cpp''" and line = 42 and out_buff_size = 128]
  note b = preamble_fields [where sys = example_os and st = example_state and verbosity = 7
      and fname = "''src/main.cpp''" and line = 42 and out_buff_size = 128]
  have "take (128 - 1)
         (date_time example_os (length (events example_state)) @ '' ('' @
          uptime example_os (length (events example_state)) @ ''s) ['' @
          pad_right 16 (thread_name example_os (length (events example_state))) @ '']'' @
          pad_left 23 (if s_strip_file_path example_state then filename ''src/main.cpp''
                       else ''src/main.cpp'') @ '':'' @
          pad_right 5 (dec_nat (unat (42 :: 32 word))) @ '' '' @
          pad_left 4 (if ERROR \<le> FATAL then ''FATL'' else if ERROR = ERROR then ''ERR''
                      else if ERROR = WARNING then ''WARN'' else dec_int ERROR) @ ''| '') =
       ''2015-10-24 12:00:00.000 (   0.001s) [main thread     ]               main.cpp:42     ERR| ''"
    by code_simp
  moreover have "take (128 - 1)
         (date_time example_os (length (events example_state)) @ '' ('' @
          uptime example_os (length (events example_state)) @ ''s) ['' @
          pad_right 16 (thread_name example_os (length (events example_state))) @ '']'' @
          pad_left 23 (if s_strip_file_path example_state then filename ''src/main.cpp''
                       else ''src/main.cpp'') @ '':'' @
          pad_right 5 (dec_nat (unat (42 :: 32 word))) @ '' '' @
          pad_left 4 (if (7 :: int) \<le> FATAL then ''FATL'' else if (7 :: int) = ERROR then ''ERR''
                      else if (7 :: int) = WARNING then ''WARN'' else dec_int 7) @ ''| '') =
       ''2015-10-24 12:00:00.000 (   0.001s) [main thread     ]               main.cpp:42       7| ''"
    by code_simp
  ultimately show ?thesis using a b r by simp
qed

section \<open>Prettifying a stack trace\<close>

text \<open>
  Claim C5, counterexample. On \<^verbatim>\<open>"__this__cdecl call "\<close> the pass for
  \<^verbatim>\<open>"__thiscall "\<close> finds nothing, the later pass for \<^verbatim>\<open>"__cdecl "\<close> leaves
  \<^verbatim>\<open>"__thiscall "\<close>, and a second run removes that: the function is not idempotent.
\<close>

theorem prettify_not_idempotent_counterexample:
  "prettify_stacktrace example_os ''__this__cdecl call '' = Some ''__thiscall ''
   \<and> prettify_stacktrace example_os ''__thiscall '' = Some []"
  by code_simp

lemma replace_while_fixed:
  "find_str pat y = None \<Longrightarrow> replace_while pat new y = Some y"
  by (subst replace_while.simps) simp

lemma replace_each_fixed:
  "\<forall>p \<in> set ps. find_str (fst p) y = None \<Longrightarrow> replace_each ps y = Some y"
  by (induction ps) (simp_all add: replace_while_fixed)

lemma find_str_bound: "find_str pat s = Some i \<Longrightarrow> i + length pat \<le> length s"
proof (induction s arbitrary: i)
  case Nil
  then show ?case by (simp split: if_splits)
next
  case (Cons c rest)
  show ?case
  proof (cases "prefix pat (c # rest)")
    case True
    then have "length pat \<le> length (c # rest)" by (rule prefix_length_le)
    then show ?thesis using Cons.prems True by simp
  next
    case False
    then obtain j where "find_str pat rest = Some j" "i = Suc j"
      using Cons.prems by auto
    then show ?thesis using Cons.IH [of j] by simp
  qed
qed

lemma replace_at_length:
  "i + n \<le> length s \<Longrightarrow> length (replace_at s i n new) = length s - n + length new"
  by (simp add: replace_at_def)

lemma replace_while_ends:
  assumes "length new < length pat"
  shows "\<exists>y. replace_while pat new s = Some y \<and> find_str pat y = None \<and> length y \<le> length s
     \<and> (length y = length s \<longrightarrow> y = s \<and> find_str pat s = None)"
proof (induction "length s" arbitrary: s rule: less_induct)
  case less
  show ?case
  proof (cases "find_str pat s")
    case None
    then have "replace_while pat new s = Some s" by (subst replace_while.simps) simp
    then show ?thesis using None by simp
  next
    case (Some i)
    let ?s = "replace_at s i (length pat) new"
    have "i + length pat \<le> length s" using Some by (rule find_str_bound)
    then have shorter: "length ?s < length s"
      using assms by (simp add: replace_at_length)
    obtain y where y: "replace_while pat new ?s = Some y" "find_str pat y = None"
      "length y \<le> length ?s"
      using less [OF shorter] by blast
    have "replace_while pat new s = Some y"
      using Some y(1) by (subst replace_while.simps) simp
    then show ?thesis using y shorter by auto
  qed
qed

lemma replace_each_ends:
  assumes "\<forall>p \<in> set ps. length (snd p) < length (fst p)"
  shows "\<exists>y. replace_each ps s = Some y \<and> length y \<le> length s
     \<and> (length y = length s \<longrightarrow> y = s \<and> (\<forall>p \<in> set ps. find_str (fst p) s = None))"
  using assms
proof (induction ps arbitrary: s)
  case Nil
  then show ?case by simp
next
  case (Cons p ps)
  have p: "length (snd p) < length (fst p)" and ps: "\<forall>p \<in> set ps. length (snd p) < length (fst p)"
    using Cons.prems by simp_all
  obtain y1 where y1: "replace_while (fst p) (snd p) s = Some y1" "length y1 \<le> length s"
    "length y1 = length s \<longrightarrow> y1 = s \<and> find_str (fst p) s = None"
    using replace_while_ends [OF p, of s] by blast
  obtain y where y: "replace_each ps y1 = Some y" "length y \<le> length y1"
    "length y = length y1 \<longrightarrow> y = y1 \<and> (\<forall>p \<in> set ps. find_str (fst p) y1 = None)"
    using Cons.IH [OF ps, of y1] by blast
  have "replace_each (p # ps) s = Some y" using y1(1) y(1) by simp
  moreover have "length y \<le> length s" using y1(2) y(2) by simp
  moreover have "y = s \<and> (\<forall>q \<in> set (p # ps). find_str (fst q) s = None)"
    if "length y = length s"
  proof -
    have "length y1 = length s" "length y = length y1" using that y1(2) y(2) by simp_all
    then show ?thesis using y1(3) y(3) by auto
  qed
  ultimately show ?case by blast
qed

lemma REPLACE_LIST_shrinks:
  "long_type_names sys \<Longrightarrow> \<forall>p \<in> set (REPLACE_LIST sys). length (snd p) < length (fst p)"
  by (simp add: long_type_names_def REPLACE_LIST_def)

lemma greedy_Some:
  "greedy k s lo n = Some (segs, rest) \<Longrightarrow>
     \<exists>m segs'. lo \<le> m \<and> m \<le> n \<and> segs = take m s # segs' \<and> k (drop m s) = Some (segs', rest)"
proof (induction k s lo n rule: greedy.induct)
  case (1 k s lo n)
  from "1.prems" have ge: "\<not> n < lo"
    by (subst (asm) greedy.simps) (simp split: if_splits)
  show ?case
  proof (cases "k (drop n s)")
    case (Some r)
    obtain segs0 rest0 where r: "r = (segs0, rest0)" by (cases r)
    have "greedy k s lo n = Some (take n s # segs0, rest0)"
      using Some r ge by (subst greedy.simps) simp
    then have "segs = take n s # segs0" "rest = rest0" using "1.prems" by simp_all
    then show ?thesis
      using Some r ge by (intro exI [of _ n] exI [of _ segs0]) simp
  next
    case None
    then have n: "n \<noteq> 0" and rec: "greedy k s lo (n - 1) = Some (segs, rest)"
      using "1.prems" ge by (subst (asm) greedy.simps; simp split: if_splits)+
    obtain m segs' where "lo \<le> m" "m \<le> n - 1" "segs = take m s # segs'"
      "k (drop m s) = Some (segs', rest)"
      using "1.IH" [OF ge None n rec] by blast
    then show ?thesis by (intro exI [of _ m] exI [of _ segs']) simp
  qed
qed

lemma match_Once:
  assumes "match_atoms (Once c # as) s = Some (segs, rest)"
  shows "\<exists>x r segs'. s = x # r \<and> in_class c x \<and> segs = [x] # segs'
     \<and> match_atoms as r = Some (segs', rest)"
proof (cases s)
  case Nil
  then show ?thesis using assms by simp
next
  case (Cons x r)
  then have c: "in_class c x" and g: "greedy (match_atoms as) s 1 1 = Some (segs, rest)"
    using assms by (simp_all split: if_splits)
  obtain m segs' where "1 \<le> m" "m \<le> 1" "segs = take m s # segs'"
    "match_atoms as (drop m s) = Some (segs', rest)"
    using greedy_Some [OF g] by blast
  then show ?thesis using Cons c by (intro exI [of _ x] exI [of _ r] exI [of _ segs']) auto
qed

lemma match_Many:
  assumes "match_atoms (Many c # as) s = Some (segs, rest)"
  shows "\<exists>m segs'. m \<le> length s \<and> segs = take m s # segs'
     \<and> match_atoms as (drop m s) = Some (segs', rest)"
proof -
  have g: "greedy (match_atoms as) s 0 (length (takeWhile (in_class c) s)) = Some (segs, rest)"
    using assms by simp
  obtain m segs' where m: "m \<le> length (takeWhile (in_class c) s)" "segs = take m s # segs'"
    "match_atoms as (drop m s) = Some (segs', rest)"
    using greedy_Some [OF g] by blast
  have "length (takeWhile (in_class c) s) \<le> length s" by (rule length_takeWhile_le)
  then show ?thesis using m by (intro exI [of _ m] exI [of _ segs']) simp
qed

lemma match_Many1:
  assumes "match_atoms (Many1 c # as) s = Some (segs, rest)"
  shows "\<exists>m segs'. m \<le> length s \<and> segs = take m s # segs'
     \<and> match_atoms as (drop m s) = Some (segs', rest)"
proof -
  have g: "greedy (match_atoms as) s 1 (length (takeWhile (in_class c) s)) = Some (segs, rest)"
    using assms by simp
  obtain m segs' where m: "m \<le> length (takeWhile (in_class c) s)" "segs = take m s # segs'"
    "match_atoms as (drop m s) = Some (segs', rest)"
    using greedy_Some [OF g] by blast
  have "length (takeWhile (in_class c) s) \<le> length s" by (rule length_takeWhile_le)
  then show ?thesis using m by (intro exI [of _ m] exI [of _ segs']) simp
qed

lemma match_atoms_sound:
  "match_atoms re s = Some (segs, rest) \<Longrightarrow> s = concat segs @ rest"
proof (induction re arbitrary: s segs rest)
  case Nil
  then show ?case by simp
next
  case (Cons a as)
  show ?case
  proof (cases a)
    case (Once c)
    then obtain x r segs' where "s = x # r" "segs = [x] # segs'"
      "match_atoms as r = Some (segs', rest)"
      using match_Once Cons.prems by blast
    then show ?thesis using Cons.IH [of r segs' rest] by simp
  next
    case (Many c)
    then obtain m segs' where m: "segs = take m s # segs'"
      "match_atoms as (drop m s) = Some (segs', rest)"
      using match_Many Cons.prems by blast
    have "s = take m s @ drop m s" by simp
    then show ?thesis using Cons.IH [OF m(2)] m(1) by (metis append.assoc concat.simps(2))
  next
    case (Many1 c)
    then obtain m segs' where m: "segs = take m s # segs'"
      "match_atoms as (drop m s) = Some (segs', rest)"
      using match_Many1 Cons.prems by blast
    have "s = take m s @ drop m s" by simp
    then show ?thesis using Cons.IH [OF m(2)] m(1) by (metis append.assoc concat.simps(2))
  qed
qed

lemma regex_replace_from_skip:
  "regex_replace_from re fmt k s = regex_replace_from re fmt 0 (drop k s)"
proof (induction s arbitrary: k)
  case Nil
  then show ?case by simp
next
  case (Cons c rest)
  then show ?case by (cases k) simp_all
qed

lemma regex_replace_from_shrinks:
  assumes "\<And>s segs rest. match_atoms re s = Some (segs, rest) \<Longrightarrow>
     concat segs \<noteq> [] \<and> length (fmt segs) \<le> length (concat segs)
     \<and> (length (fmt segs) = length (concat segs) \<longrightarrow> fmt segs = concat segs)"
  shows "length (regex_replace_from re fmt 0 s) \<le> length s
     \<and> (length (regex_replace_from re fmt 0 s) = length s \<longrightarrow> regex_replace_from re fmt 0 s = s)"
proof (induction "length s" arbitrary: s rule: less_induct)
  case less
  show ?case
  proof (cases s)
    case Nil
    then show ?thesis by simp
  next
    case (Cons c r)
    show ?thesis
    proof (cases "match_atoms re (c # r)")
      case None
      have "length r < length s" using Cons by simp
      from less [OF this] show ?thesis using None Cons by simp
    next
      case (Some found)
      obtain segs rest where found: "found = (segs, rest)" by (cases found)
      have m: "match_atoms re (c # r) = Some (segs, rest)" using Some found by simp
      have split: "c # r = concat segs @ rest" using m by (rule match_atoms_sound)
      note f = assms [OF m]
      have r: "r = tl (concat segs) @ rest" using split f by (cases "concat segs") auto
      have "drop (length (concat segs) - 1) r = rest" unfolding r by simp
      then have out: "regex_replace_from re fmt 0 (c # r) =
          fmt segs @ regex_replace_from re fmt 0 rest"
        using m regex_replace_from_skip [of re fmt "length (concat segs) - 1" r] by simp
      have "length rest < length s" using split f Cons
        by (metis length_append length_greater_0_conv less_add_same_cancel2)
      from less [OF this] have ih: "length (regex_replace_from re fmt 0 rest) \<le> length rest"
        "length (regex_replace_from re fmt 0 rest) = length rest \<longrightarrow>
           regex_replace_from re fmt 0 rest = rest"
        by simp_all
      have total: "length s = length (concat segs) + length rest"
        using split Cons by (metis length_append)
      show ?thesis unfolding Cons out using f ih total split Cons by auto
    qed
  qed
qed

lemma std_allocator_shrinks:
  assumes "match_atoms std_allocator_re s = Some (segs, rest)"
  shows "concat segs \<noteq> [] \<and> length ((\<lambda>segs. []) segs :: string) \<le> length (concat segs)
     \<and> (length ((\<lambda>segs. []) segs :: string) = length (concat segs) \<longrightarrow>
          ((\<lambda>segs. []) segs :: string) = concat segs)"
proof -
  obtain as where re: "std_allocator_re = Once (Chr (CHR '','')) # as"
    by (simp add: std_allocator_re_def literal_def)
  obtain x segs' where "segs = [x] # segs'"
    using match_Once assms unfolding re by blast
  then show ?thesis by simp
qed

lemma template_spaces_shrinks:
  assumes "match_atoms template_spaces_re s = Some (segs, rest)"
  shows "concat segs \<noteq> [] \<and> length (''<'' @ segs ! 2 @ ''>'') \<le> length (concat segs)
     \<and> (length (''<'' @ segs ! 2 @ ''>'') = length (concat segs) \<longrightarrow>
          ''<'' @ segs ! 2 @ ''>'' = concat segs)"
proof -
  have re: "template_spaces_re =
      [Once (Chr (CHR ''<'')), Many Space, Many1 (NoneOf ''<> ''), Many Space, Once (Chr (CHR ''>''))]"
    by (simp add: template_spaces_re_def literal_def)
  obtain x0 r0 s1 where a0: "s = x0 # r0" "in_class (Chr (CHR ''<'')) x0" "segs = [x0] # s1"
    "match_atoms [Many Space, Many1 (NoneOf ''<> ''), Many Space, Once (Chr (CHR ''>''))] r0 =
       Some (s1, rest)"
    using match_Once assms unfolding re by blast
  obtain m1 s2 where a1: "s1 = take m1 r0 # s2"
    "match_atoms [Many1 (NoneOf ''<> ''), Many Space, Once (Chr (CHR ''>''))] (drop m1 r0) =
       Some (s2, rest)"
    using match_Many [OF a0(4)] by blast
  obtain m2 s3 where a2: "s2 = take m2 (drop m1 r0) # s3"
    "match_atoms [Many Space, Once (Chr (CHR ''>''))] (drop m2 (drop m1 r0)) = Some (s3, rest)"
    using match_Many1 [OF a1(2)] by blast
  obtain m3 s4 where a3: "s3 = take m3 (drop m2 (drop m1 r0)) # s4"
    "match_atoms [Once (Chr (CHR ''>''))] (drop m3 (drop m2 (drop m1 r0))) = Some (s4, rest)"
    using match_Many [OF a2(2)] by blast
  obtain x4 r4 s5 where a4: "in_class (Chr (CHR ''>'')) x4" "s4 = [x4] # s5"
    "match_atoms [] r4 = Some (s5, rest)"
    using match_Once [OF a3(2)] by blast
  have s5: "s5 = []" using a4(3) by simp
  obtain w1 g w2 where segs: "segs = [''<'', w1, g, w2, ''>'']"
    using a0 a1 a2 a3 a4 s5 by simp
  have "length w1 = 0 \<and> length w2 = 0 \<longrightarrow> w1 = [] \<and> w2 = []" by simp
  then show ?thesis unfolding segs by (simp add: numeral_2_eq_2)
qed

lemma regex_allocator_shrinks:
  "length (regex_replace s std_allocator_re (\<lambda>segs. [])) \<le> length s
   \<and> (length (regex_replace s std_allocator_re (\<lambda>segs. [])) = length s \<longrightarrow>
        regex_replace s std_allocator_re (\<lambda>segs. []) = s)"
  unfolding regex_replace_def
  by (rule regex_replace_from_shrinks) (rule std_allocator_shrinks)

lemma regex_template_shrinks:
  "length (regex_replace s template_spaces_re (\<lambda>segs. ''<'' @ segs ! 2 @ ''>'')) \<le> length s
   \<and> (length (regex_replace s template_spaces_re (\<lambda>segs. ''<'' @ segs ! 2 @ ''>'')) = length s \<longrightarrow>
        regex_replace s template_spaces_re (\<lambda>segs. ''<'' @ segs ! 2 @ ''>'') = s)"
  unfolding regex_replace_def
  by (rule regex_replace_from_shrinks) (rule template_spaces_shrinks)

lemma prettify_ends:
  assumes "long_type_names sys"
  shows "\<exists>y. prettify_stacktrace sys x = Some y \<and> length y \<le> length x
     \<and> (length y = length x \<longrightarrow>
          y = x \<and> (\<forall>p \<in> set (REPLACE_LIST sys). find_str (fst p) x = None)
          \<and> regex_replace x std_allocator_re (\<lambda>segs. []) = x
          \<and> regex_replace x template_spaces_re (\<lambda>segs. ''<'' @ segs ! 2 @ ''>'') = x)"
proof -
  obtain o1 where o1: "replace_each (REPLACE_LIST sys) x = Some o1" "length o1 \<le> length x"
    "length o1 = length x \<longrightarrow> o1 = x \<and> (\<forall>p \<in> set (REPLACE_LIST sys). find_str (fst p) x = None)"
    using replace_each_ends [OF REPLACE_LIST_shrinks [OF assms], of x] by blast
  define o2 where "o2 = regex_replace o1 std_allocator_re (\<lambda>segs. [])"
  define o3 where "o3 = regex_replace o2 template_spaces_re (\<lambda>segs. ''<'' @ segs ! 2 @ ''>'')"
  have l2: "length o2 \<le> length o1" "length o2 = length o1 \<longrightarrow> o2 = o1"
    using regex_allocator_shrinks [of o1] by (simp_all add: o2_def)
  have l3: "length o3 \<le> length o2" "length o3 = length o2 \<longrightarrow> o3 = o2"
    using regex_template_shrinks [of o2] by (simp_all add: o3_def)
  have run: "prettify_stacktrace sys x = Some o3"
    using o1(1) by (simp add: prettify_stacktrace_def Let_def o2_def o3_def)
  have "length o3 \<le> length x" using o1(2) l2(1) l3(1) by linarith
  moreover have "o3 = x \<and> (\<forall>p \<in> set (REPLACE_LIST sys). find_str (fst p) x = None)
          \<and> regex_replace x std_allocator_re (\<lambda>segs. []) = x
          \<and> regex_replace x template_spaces_re (\<lambda>segs. ''<'' @ segs ! 2 @ ''>'') = x"
    if "length o3 = length x"
  proof -
    have e: "length o1 = length x" "length o2 = length o1" "length o3 = length o2"
      using that o1(2) l2(1) l3(1) by linarith+
    then have "o1 = x" "o2 = o1" "o3 = o2" using o1(3) l2(2) l3(2) by simp_all
    then show ?thesis using o1(3) e(1) o2_def o3_def by metis
  qed
  ultimately show ?thesis using run by blast
qed

lemma prettify_times_fixed:
  "prettify_stacktrace sys z = Some z \<Longrightarrow> prettify_times sys n z = Some z"
  by (induction n) simp_all

lemma prettify_times_settles:
  assumes "long_type_names sys"
  shows "length x \<le> n \<Longrightarrow>
     \<exists>z. prettify_times sys n x = Some z \<and> prettify_stacktrace sys z = Some z"
proof (induction n arbitrary: x)
  case 0
  then have x: "x = []" by simp
  obtain y where "prettify_stacktrace sys x = Some y" "length y \<le> length x"
    using prettify_ends [OF assms, of x] by blast
  then show ?case using x by simp
next
  case (Suc n)
  obtain y where y: "prettify_stacktrace sys x = Some y" "length y \<le> length x"
    "length y = length x \<longrightarrow> y = x"
    using prettify_ends [OF assms, of x] by blast
  show ?case
  proof (cases "length y = length x")
    case True
    then have "prettify_stacktrace sys x = Some x" using y by simp
    then show ?thesis using prettify_times_fixed [of sys x "Suc n"] by blast
  next
    case False
    then have "length y \<le> n" using y(2) Suc.prems by linarith
    from Suc.IH [OF this] show ?thesis using y(1) by simp
  qed
qed

text \<open>
  Claim C5, amended. On a platform where each of the four type names is longer than
  its alias, \<^const>\<open>prettify_stacktrace\<close> returns on every text, its result is never
  longer than the text, and a result of the same length is the text itself. A text is
  left unchanged exactly when no pattern of the replace list occurs in it and neither
  of the two regular-expression substitutions changes it. Prettifying a text \<open>x\<close>
  over and over reaches, after at most \<open>length x\<close> runs, a text that one more run
  leaves unchanged. Each loop of the replace list ends, with a text in which its
  pattern does not occur and which the same loop returns as it is.
\<close>

theorem prettify_settles:
  "long_type_names sys \<longrightarrow>
     (\<exists>y. prettify_stacktrace sys x = Some y \<and> length y \<le> length x
        \<and> (length y = length x \<longrightarrow> y = x))
     \<and> (prettify_stacktrace sys x = Some x \<longleftrightarrow>
          (\<forall>p \<in> set (REPLACE_LIST sys). find_str (fst p) x = None)
          \<and> regex_replace x std_allocator_re (\<lambda>segs. []) = x
          \<and> regex_replace x template_spaces_re (\<lambda>segs. ''<'' @ segs ! 2 @ ''>'') = x)
     \<and> (\<exists>z. prettify_times sys (length x) x = Some z \<and> prettify_stacktrace sys z = Some z)
     \<and> (\<forall>p \<in> set (REPLACE_LIST sys).
          \<exists>y. replace_while (fst p) (snd p) x = Some y \<and> find_str (fst p) y = None
            \<and> replace_while (fst p) (snd p) y = Some y)"
proof
  assume h: "long_type_names sys"
  obtain y where y: "prettify_stacktrace sys x = Some y" "length y \<le> length x"
    "length y = length x \<longrightarrow>
          y = x \<and> (\<forall>p \<in> set (REPLACE_LIST sys). find_str (fst p) x = None)
          \<and> regex_replace x std_allocator_re (\<lambda>segs. []) = x
          \<and> regex_replace x template_spaces_re (\<lambda>segs. ''<'' @ segs ! 2 @ ''>'') = x"
    using prettify_ends [OF h, of x] by blast
  have a: "\<exists>y. prettify_stacktrace sys x = Some y \<and> length y \<le> length x
        \<and> (length y = length x \<longrightarrow> y = x)"
    using y by blast
  have b: "prettify_stacktrace sys x = Some x \<longleftrightarrow>
          (\<forall>p \<in> set (REPLACE_LIST sys). find_str (fst p) x = None)
          \<and> regex_replace x std_allocator_re (\<lambda>segs. []) = x
          \<and> regex_replace x template_spaces_re (\<lambda>segs. ''<'' @ segs ! 2 @ ''>'') = x"
  proof
    assume "prettify_stacktrace sys x = Some x"
    then have "y = x" using y(1) by simp
    then show "(\<forall>p \<in> set (REPLACE_LIST sys). find_str (fst p) x = None)
          \<and> regex_replace x std_allocator_re (\<lambda>segs. []) = x
          \<and> regex_replace x template_spaces_re (\<lambda>segs. ''<'' @ segs ! 2 @ ''>'') = x"
      using y(3) by simp
  next
    assume "(\<forall>p \<in> set (REPLACE_LIST sys). find_str (fst p) x = None)
          \<and> regex_replace x std_allocator_re (\<lambda>segs. []) = x
          \<and> regex_replace x template_spaces_re (\<lambda>segs. ''<'' @ segs ! 2 @ ''>'') = x"
    then show "prettify_stacktrace sys x = Some x"
      by (simp add: prettify_stacktrace_def Let_def replace_each_fixed)
  qed
  have c: "\<exists>z. prettify_times sys (length x) x = Some z \<and> prettify_stacktrace sys z = Some z"
    using prettify_times_settles [OF h, of x "length x"] by simp
  have d: "\<exists>y. replace_while (fst p) (snd p) x = Some y \<and> find_str (fst p) y = None
            \<and> replace_while (fst p) (snd p) y = Some y"
    if "p \<in> set (REPLACE_LIST sys)" for p
  proof -
    have "length (snd p) < length (fst p)" using REPLACE_LIST_shrinks [OF h] that by blast
    then obtain y where "replace_while (fst p) (snd p) x = Some y" "find_str (fst p) y = None"
      using replace_while_ends [of "snd p" "fst p" x] by blast
    then show ?thesis using replace_while_fixed by blast
  qed
  from a b c d show "(\<exists>y. prettify_stacktrace sys x = Some y \<and> length y \<le> length x
        \<and> (length y = length x \<longrightarrow> y = x))
     \<and> (prettify_stacktrace sys x = Some x \<longleftrightarrow>
          (\<forall>p \<in> set (REPLACE_LIST sys). find_str (fst p) x = None)
          \<and> regex_replace x std_allocator_re (\<lambda>segs. []) = x
          \<and> regex_replace x template_spaces_re (\<lambda>segs. ''<'' @ segs ! 2 @ ''>'') = x)
     \<and> (\<exists>z. prettify_times sys (length x) x = Some z \<and> prettify_stacktrace sys z = Some z)
     \<and> (\<forall>p \<in> set (REPLACE_LIST sys).
          \<exists>y. replace_while (fst p) (snd p) x = Some y \<and> find_str (fst p) y = None
            \<and> replace_while (fst p) (snd p) y = Some y)"
    by blast
qed

theorem prettify_settles_witness:
  "long_type_names example_os
   \<and> prettify_times example_os 1 ''__this__cdecl call '' = Some ''__thiscall ''
   \<and> prettify_times example_os 2 ''__this__cdecl call '' = Some []
   \<and> (\<exists>z. prettify_times example_os (length ''__this__cdecl call '') ''__this__cdecl call '' = Some z
         \<and> prettify_stacktrace example_os z = Some z)
   \<and> prettify_stacktrace example_os ''foo(std::vector<int>)'' = Some ''foo(std::vector<int>)''"
proof -
  have h: "long_type_names example_os" by code_simp
  have one: "prettify_times example_os 1 ''__this__cdecl call '' = Some ''__thiscall ''"
    and two: "prettify_times example_os 2 ''__this__cdecl call '' = Some []"
    by code_simp+
  have fixed: "(\<forall>p \<in> set (REPLACE_LIST example_os). find_str (fst p) ''foo(std::vector<int>)'' = None)
      \<and> regex_replace ''foo(std::vector<int>)'' std_allocator_re (\<lambda>segs. []) = ''foo(std::vector<int>)''
      \<and> regex_replace ''foo(std::vector<int>)'' template_spaces_re (\<lambda>segs. ''<'' @ segs ! 2 @ ''>'') =
          ''foo(std::vector<int>)''"
    by code_simp
  from prettify_settles [where sys = example_os and x = "''__this__cdecl call ''"] h
  have "\<exists>z. prettify_times example_os (length ''__this__cdecl call '') ''__this__cdecl call '' = Some z
         \<and> prettify_stacktrace example_os z = Some z"
    by blast
  moreover from prettify_settles [where sys = example_os and x = "''foo(std::vector<int>)''"] h fixed
  have "prettify_stacktrace example_os ''foo(std::vector<int>)'' = Some ''foo(std::vector<int>)''"
    by blast
  ultimately show ?thesis using h one two by blast
qed

section \<open>The fatal path\<close>

text \<open>
  Claim C2 says that a non-empty stack trace is dispatched at \<^verbatim>\<open>ERROR\<close> severity
  before the \<^verbatim>\<open>FATAL\<close> message. It is logged with \<^verbatim>\<open>LOG_F(ERROR, ...)\<close>, so
  with the threshold at \<^verbatim>\<open>FATAL\<close> (-3) the trace \<^verbatim>\<open>"0 main"\<close> is dropped: the
  only events are the \<^verbatim>\<open>FATAL\<close> line and the call of the fatal handler.
\<close>

theorem log_and_abort_without_trace_message:
  "stacktrace example_os 2 = Some ''0 main''
   \<and> (case (log_and_abort example_os 0 ''CHECK FAILED:  x  '' ''main.cpp'' 10 ''oops''
              (example_state\<lparr>g_verbosity := FATAL\<rparr>) :: unit outcome) of
         Aborts st \<Rightarrow>
           events st =
             [Write s_err
                (''2015-10-24 12:00:00.000 (   0.001s) [main thread     ]'' @
                 ''               main.cpp:10    FATL| CHECK FAILED:  x  oops'' @ [CHR 0x0A]),
              FatalHandler std_abort]
       | Returns u st \<Rightarrow> False
       | Hangs \<Rightarrow> False)"
  by code_simp

section \<open>File sinks\<close>

lemma emit_fields [simp]:
  "s_callbacks (emit es st) = s_callbacks st" "g_verbosity (emit es st) = g_verbosity st"
  "events (emit es st) = events st @ es" "s_file_arguments (emit es st) = s_file_arguments st"
  by (simp_all add: emit_def)

lemma emit_Nil [simp]: "emit [] st = st"
  by (simp add: emit_def)

lemma LOG_F_dispatch:
  "LOG_F sys v f l t st =
     (if v \<le> g_verbosity st then emit (dispatch_events sys v f l [] t st) st else st)"
  by (simp add: LOG_F_def VLOG_F_def log_def log_to_everywhere_v_def log_to_everywhere_emit)








section \<open>The threshold, the registry and the fatal path in general\<close>

text \<open>
  Property X1. What the macro does, for a severity of either sign: the call is
  dispatched when the severity is at most the threshold and changes nothing otherwise;
  a dispatched call writes its line to the error stream for a negative severity, to the
  output stream otherwise, and then calls the eligible sinks.
\<close>

theorem VLOG_F_threshold_only:
  "VLOG_F sys verbosity fname line body st =
     (if verbosity \<le> g_verbosity st
      then emit (dispatch_events sys verbosity fname line [] body st) st else st)"
  by (simp add: VLOG_F_def log_def log_to_everywhere_v_def log_to_everywhere_emit)

lemma find_if_first:
  "\<forall>p \<in> set pre. \<not> pred p \<Longrightarrow> pred c \<Longrightarrow> find_if pred (pre @ c # post) = Some (length pre)"
  by (induction pre) simp_all

lemma find_if_none:
  "\<forall>p \<in> set xs. \<not> pred p \<Longrightarrow> find_if pred xs = None"
  by (induction xs) simp_all

text \<open>
  Property X2. What \<^const>\<open>remove_callback\<close> does otherwise. When some entry has the
  id, the first such entry is erased and the others keep their order, after the close
  hook of that entry (if it has one) was called with its \<^verbatim>\<open>user_data\<close>. When no
  entry has the id and \<^verbatim>\<open>ERROR\<close> is within the threshold, the call is the dispatch
  of one \<^verbatim>\<open>ERROR\<close> message and nothing else.
\<close>

theorem remove_callback_behaviour:
  "(s_callbacks st = pre @ c # post \<and> cb_id c = ident \<and> (\<forall>p \<in> set pre. cb_id p \<noteq> ident) \<longrightarrow>
      remove_callback sys ident st =
        (emit (case cb_close c of Some close \<Rightarrow> [Closed close (cb_user_data c)] | None \<Rightarrow> []) st)
          \<lparr>s_callbacks := pre @ post\<rparr>)
   \<and> ((\<forall>p \<in> set (s_callbacks st). cb_id p \<noteq> ident) \<and> ERROR \<le> g_verbosity st \<longrightarrow>
      remove_callback sys ident st =
        emit (dispatch_events sys ERROR (header_file sys) 941 []
                (''Failed to locate callback with id '' @ [CHR 0x27] @ ident @ [CHR 0x27]) st) st)"
proof -
  have found: "remove_callback sys ident st =
        (emit (case cb_close c of Some close \<Rightarrow> [Closed close (cb_user_data c)] | None \<Rightarrow> []) st)
          \<lparr>s_callbacks := pre @ post\<rparr>"
    if "s_callbacks st = pre @ c # post \<and> cb_id c = ident \<and> (\<forall>p \<in> set pre. cb_id p \<noteq> ident)"
  proof -
    have "find_if (\<lambda>c. cb_id c = ident) (s_callbacks st) = Some (length pre)"
      using that find_if_first [of pre "\<lambda>c. cb_id c = ident" c post] by simp
    then show ?thesis
      using that by (simp add: remove_callback_def Let_def erase_def emit_def split: option.splits)
  qed
  have missing: "remove_callback sys ident st =
        emit (dispatch_events sys ERROR (header_file sys) 941 []
                (''Failed to locate callback with id '' @ [CHR 0x27] @ ident @ [CHR 0x27]) st) st"
    if "(\<forall>p \<in> set (s_callbacks st). cb_id p \<noteq> ident) \<and> ERROR \<le> g_verbosity st"
  proof -
    have none: "find_if (\<lambda>c. cb_id c = ident) (s_callbacks st) = None"
      using that by (intro find_if_none) simp
    then show ?thesis using that by (simp add: remove_callback_def LOG_F_dispatch)
  qed
  from found missing show ?thesis by blast
qed

theorem remove_callback_behaviour_witness:
  "s_callbacks
     (remove_callback example_os ''b''
        (example_state\<lparr>s_callbacks :=
           [\<lparr>cb_id = ''a'', cb_callback = user_callback 1, cb_user_data = 10,
              cb_verbosity = 0, cb_close = None\<rparr>,
            \<lparr>cb_id = ''b'', cb_callback = user_callback 2, cb_user_data = 20,
              cb_verbosity = 0, cb_close = Some (user_close 5)\<rparr>,
            \<lparr>cb_id = ''b'', cb_callback = user_callback 3, cb_user_data = 30,
              cb_verbosity = 0, cb_close = None\<rparr>]\<rparr>)) =
     [\<lparr>cb_id = ''a'', cb_callback = user_callback 1, cb_user_data = 10,
        cb_verbosity = 0, cb_close = None\<rparr>,
      \<lparr>cb_id = ''b'', cb_callback = user_callback 3, cb_user_data = 30,
        cb_verbosity = 0, cb_close = None\<rparr>]
   \<and> ERROR \<le> g_verbosity example_state
   \<and> s_callbacks (remove_callback example_os ''x'' example_state) = s_callbacks example_state"
proof -
  let ?a = "\<lparr>cb_id = ''a'', cb_callback = user_callback 1, cb_user_data = 10,
              cb_verbosity = 0, cb_close = None\<rparr>"
  let ?b = "\<lparr>cb_id = ''b'', cb_callback = user_callback 2, cb_user_data = 20,
              cb_verbosity = 0, cb_close = Some (user_close 5)\<rparr>"
  let ?c = "\<lparr>cb_id = ''b'', cb_callback = user_callback 3, cb_user_data = 30,
              cb_verbosity = 0, cb_close = None\<rparr>"
  let ?st = "example_state\<lparr>s_callbacks := [?a, ?b, ?c]\<rparr>"
  have shape: "s_callbacks ?st = [?a] @ ?b # [?c] \<and> cb_id ?b = ''b'' \<and> (\<forall>p \<in> set [?a]. cb_id p \<noteq> ''b'')"
    by simp
  have "remove_callback example_os ''b'' ?st =
      (emit (case cb_close ?b of Some close \<Rightarrow> [Closed close (cb_user_data ?b)] | None \<Rightarrow> []) ?st)
        \<lparr>s_callbacks := [?a] @ [?c]\<rparr>"
    using remove_callback_behaviour [where st = ?st
        and pre = "[?a]" and c = ?b and post = "[?c]" and ident = "''b''" and sys = example_os] shape
    by blast
  then have one: "s_callbacks (remove_callback example_os ''b'' ?st) = [?a] @ [?c]"
    by simp
  have e: "ERROR \<le> g_verbosity example_state"
    by (simp add: ERROR_def example_state_def)
  have unknown: "\<forall>p \<in> set (s_callbacks example_state). cb_id p \<noteq> ''x''"
    by (simp add: example_state_def)
  have "remove_callback example_os ''x'' example_state =
      emit (dispatch_events example_os ERROR (header_file example_os) 941 []
              (''Failed to locate callback with id '' @ [CHR 0x27] @ ''x'' @ [CHR 0x27])
              example_state) example_state"
    using remove_callback_behaviour [where st = example_state and ident = "''x''" and sys = example_os]
      e unknown
    by blast
  then have two: "s_callbacks (remove_callback example_os ''x'' example_state) =
      s_callbacks example_state"
    by simp
  from one e two show ?thesis by simp
qed

text \<open>
  Property X3. The fatal path when \<^verbatim>\<open>ERROR\<close> is within the threshold and the trace
  is captured: the trace, if it is not empty, is dispatched at \<^verbatim>\<open>ERROR\<close> severity;
  then one \<^verbatim>\<open>FATAL\<close> message with the expression as prefix and the formatted text
  as body goes to the error stream and the eligible sinks; then the fatal handler, if
  one is set, is called once; then the process is aborted.
\<close>

theorem log_and_abort_sequence:
  "stacktrace sys (skip + 2) = Some trace \<and> ERROR \<le> g_verbosity st \<longrightarrow>
     (log_and_abort sys skip expr fname line body st :: 'a outcome) =
       Aborts
         (let st1 = (if trace \<noteq> []
                     then emit (dispatch_events sys ERROR (header_file sys) 1207 []
                                  (''Stack trace:'' @ [CHR 0x0A] @ trace) st) st
                     else st);
              st2 = emit (dispatch_events sys FATAL fname line expr body st1) st1
          in emit (case s_fatal_handler st of
                     None \<Rightarrow> [Abort]
                   | Some std_abort \<Rightarrow> [FatalHandler std_abort]
                   | Some (user_fatal h) \<Rightarrow> [FatalHandler (user_fatal h), Abort]) st2)"
  by (simp add: log_and_abort_def Let_def LOG_F_dispatch log_to_everywhere_v_def
      log_to_everywhere_emit call_fatal_handler_def emit_def
      split: option.splits fatal_handler.splits)

theorem log_and_abort_sequence_witness:
  "stacktrace example_os (0 + 2) = Some ''0 main'' \<and> ERROR \<le> g_verbosity example_state
   \<and> (log_and_abort example_os 0 ''CHECK FAILED:  x  '' ''main.cpp'' 10 ''oops''
         example_state :: unit outcome) =
       Aborts
         (example_state\<lparr>events :=
            [Write s_err
               (''2015-10-24 12:00:00.000 (   0.001s) [main thread     ]'' @
                ''             loguru.hpp:1207   ERR| Stack trace:'' @ [CHR 0x0A] @ ''0 main'' @
                [CHR 0x0A]),
             Write s_err
               (''2015-10-24 12:00:00.000 (   0.001s) [main thread     ]'' @
                ''               main.cpp:10    FATL| CHECK FAILED:  x  oops'' @ [CHR 0x0A]),
             FatalHandler std_abort]\<rparr>)"
proof -
  have h: "stacktrace example_os (0 + 2) = Some ''0 main'' \<and> ERROR \<le> g_verbosity example_state"
    by code_simp
  note run = log_and_abort_sequence [where sys = example_os and skip = 0 and trace = "''0 main''"
      and st = example_state and expr = "''CHECK FAILED:  x  ''" and fname = "''main.cpp''"
      and line = 10 and body = "''oops''", where ?'a = unit, THEN mp, OF h]
  have "(log_and_abort example_os 0 ''CHECK FAILED:  x  '' ''main.cpp'' 10 ''oops''
         example_state :: unit outcome) =
       Aborts
         (example_state\<lparr>events :=
            [Write s_err
               (''2015-10-24 12:00:00.000 (   0.001s) [main thread     ]'' @
                ''             loguru.hpp:1207   ERR| Stack trace:'' @ [CHR 0x0A] @ ''0 main'' @
                [CHR 0x0A]),
             Write s_err
               (''2015-10-24 12:00:00.000 (   0.001s) [main thread     ]'' @
                ''               main.cpp:10    FATL| CHECK FAILED:  x  oops'' @ [CHR 0x0A]),
             FatalHandler std_abort]\<rparr>)"
    unfolding run by code_simp
  with h show ?thesis by blast
qed

end
